theory Spec2Isabelle
  imports Complex_Main
begin

section \<open>Data model\<close>

text \<open>
  Package downloader: the status enumeration (an \<open>iota\<close> block, in this order) and the
  message a worker sends on the progress channel. An \<open>error\<close> value is modelled by its
  message, \<open>None\<close> being \<open>nil\<close>. A \<open>float64\<close> percentage is modelled by the rational
  number it denotes: the values the development evaluates (0, 10, 42.5, 100) are exactly
  representable in binary64; rounding and overflow of other decimals are outside the model.
\<close>

datatype Status =
    StatusPending
  | StatusDownloading
  | StatusConverting
  | StatusCompleted
  | StatusFailed

record ProgressMsg =
  msgID :: int
  msgStatus :: Status
  msgProgress :: rat
  msgTitle :: string
  msgError :: "string option"

record Config =
  OutputDir :: string
  Format :: string
  Quality :: string

text \<open>
  Package tui: one item of the table and the model of the program. The fields of the
  Go struct that only hold widgets of the terminal library (\<open>spinner\<close>, \<open>progress\<close>) and
  the channel itself are left out; the field \<open>done\<close> is named \<open>doneFlag\<close>. The
  counters are Go \<open>int\<close>s, modelled as unbounded integers (they move by one per event
  and stay far from the 64-bit range).
\<close>

record Item =
  URL :: string
  Title :: string
  Status :: Status
  Progress :: rat
  Error :: "string option"

record Model =
  items :: "Item list"
  config :: Config
  parallel :: int
  activeCount :: int
  completed :: int
  failed :: int
  width :: int
  quitting :: bool
  doneFlag :: bool

text \<open>
  What a call leaves behind besides the new model: the goroutines it started
  (\<open>go downloader.Download(i, url, config, ch)\<close>) and the command it returns.
\<close>

datatype Spawn = GoDownload int string Config

datatype Cmd = WaitForProgress | SpinnerTick | Quit | Batch "Cmd list"

section \<open>The model of the program (package tui)\<close>

text \<open>A configuration with the default values of the flags of \<open>parseFlags\<close>.\<close>

definition defaultConfig :: Config where
  "defaultConfig = \<lparr> OutputDir = ''.'', Format = ''mp3'', Quality = ''192'' \<rparr>"

text \<open>\<open>NewModel\<close>: every URL becomes a pending item; the counters start at zero.\<close>

definition NewModel :: "string list \<Rightarrow> Config \<Rightarrow> int \<Rightarrow> Model" where
  "NewModel urls cfg p =
     \<lparr> items = map (\<lambda>url. \<lparr> URL = url, Title = [], Status = StatusPending,
                              Progress = 0, Error = None \<rparr>) urls,
       config = cfg, parallel = p, activeCount = 0, completed = 0, failed = 0,
       width = 80, quitting = False, doneFlag = False \<rparr>"

text \<open>
  The loop of \<open>startDownloads\<close> over the indices of the table: it stops once
  \<open>started >= parallel\<close>, and launches every pending item it meets before that.
\<close>

fun startLoop :: "Model \<Rightarrow> int \<Rightarrow> nat list \<Rightarrow> Model \<times> Spawn list" where
  "startLoop m started [] = (m, [])"
| "startLoop m started (i # is) =
     (if started \<ge> parallel m then (m, [])
      else if Status (items m ! i) = StatusPending then
        (case startLoop (m\<lparr>activeCount := activeCount m + 1\<rparr>) (started + 1) is of
           (m', sp) \<Rightarrow> (m', GoDownload (int i) (URL (items m ! i)) (config m) # sp))
      else startLoop m started is)"

definition startDownloads :: "Model \<Rightarrow> Model \<times> Spawn list" where
  "startDownloads m = startLoop m 0 [0..<length (items m)]"

text \<open>
  \<open>Init\<close> has a value receiver: it calls \<open>startDownloads\<close> (pointer receiver) on its own
  copy of the model, so the increments of \<open>activeCount\<close> land in that copy. The program
  keeps the model it passed; what \<open>Init\<close> contributes to the run are the launched workers.
\<close>

definition Init :: "Model \<Rightarrow> Spawn list" where
  "Init m = snd (startDownloads m)"

text \<open>
  The admission loop of \<open>handleProgress\<close>: the first index whose item is pending, if
  \<open>activeCount < parallel\<close>, is launched and the loop breaks.
\<close>

fun admitNext :: "Model \<Rightarrow> nat list \<Rightarrow> Model \<times> Spawn list" where
  "admitNext m [] = (m, [])"
| "admitNext m (i # is) =
     (if Status (items m ! i) = StatusPending \<and> activeCount m < parallel m
      then (m\<lparr>activeCount := activeCount m + 1\<rparr>,
            [GoDownload (int i) (URL (items m ! i)) (config m)])
      else admitNext m is)"

text \<open>The writes of \<open>handleProgress\<close> to the item the message names.\<close>

definition applyMsg :: "Item \<Rightarrow> ProgressMsg \<Rightarrow> Item" where
  "applyMsg item msg =
     (let item1 = item\<lparr>Status := msgStatus msg, Progress := msgProgress msg\<rparr>;
          item2 = (if msgTitle msg \<noteq> [] then item1\<lparr>Title := msgTitle msg\<rparr> else item1)
      in if msgError msg \<noteq> None then item2\<lparr>Error := msgError msg\<rparr> else item2)"

definition handleProgress :: "Model \<Rightarrow> ProgressMsg \<Rightarrow> Model \<times> Spawn list \<times> Cmd" where
  "handleProgress m msg =
     (if msgID msg < 0 \<or> msgID msg \<ge> int (length (items m)) then (m, [], WaitForProgress)
      else
        let i = nat (msgID msg);
            m1 = m\<lparr>items := (items m)[i := applyMsg (items m ! i) msg]\<rparr>
        in if msgStatus msg = StatusCompleted \<or> msgStatus msg = StatusFailed then
             (let m2 = m1\<lparr>activeCount := activeCount m1 - 1\<rparr>;
                  m3 = (if msgStatus msg = StatusCompleted
                        then m2\<lparr>completed := completed m2 + 1\<rparr>
                        else m2\<lparr>failed := failed m2 + 1\<rparr>)
              in case admitNext m3 [0..<length (items m3)] of
                   (m4, sp) \<Rightarrow>
                     if completed m4 + failed m4 = int (length (items m4))
                     then (m4\<lparr>doneFlag := True\<rparr>, sp, Quit)
                     else (m4, sp, Batch [WaitForProgress, SpinnerTick]))
           else (m1, [], Batch [WaitForProgress, SpinnerTick]))"

text \<open>
  The model \<open>handleProgress\<close> has built when it enters the admission loop, for a
  terminal message in range: the item is written, \<open>activeCount\<close> is decremented and one
  of \<open>completed\<close> and \<open>failed\<close> is incremented.
\<close>

definition counted :: "Model \<Rightarrow> ProgressMsg \<Rightarrow> Model" where
  "counted m msg =
     m\<lparr>items := (items m)[nat (msgID msg) := applyMsg (items m ! nat (msgID msg)) msg],
       activeCount := activeCount m - 1,
       completed := completed m + (if msgStatus msg = StatusCompleted then 1 else 0),
       failed := failed m + (if msgStatus msg = StatusCompleted then 0 else 1)\<rparr>"

text \<open>
  A run of the aggregator over the events in the order they are received; \<open>trace\<close> keeps
  every model on the way, the first being the one the run starts from.
\<close>

fun run :: "Model \<Rightarrow> ProgressMsg list \<Rightarrow> Model" where
  "run m [] = m"
| "run m (e # es) = run (fst (handleProgress m e)) es"

fun trace :: "Model \<Rightarrow> ProgressMsg list \<Rightarrow> Model list" where
  "trace m [] = [m]"
| "trace m (e # es) = m # trace (fst (handleProgress m e)) es"

definition statusPath :: "Model \<Rightarrow> nat \<Rightarrow> ProgressMsg list \<Rightarrow> Status list" where
  "statusPath m i es = map (\<lambda>m'. Status (items m' ! i)) (trace m es)"

text \<open>
  The two models a run can be said to start from: the one the program holds when the
  first event arrives (\<open>Init\<close> left it as \<open>NewModel\<close> built it), and the copy on which
  \<open>startDownloads\<close> counted the workers it launched.
\<close>

definition startStates :: "string list \<Rightarrow> Config \<Rightarrow> int \<Rightarrow> Model set" where
  "startStates urls cfg p =
     {NewModel urls cfg p, fst (startDownloads (NewModel urls cfg p))}"

section \<open>Regular expressions of the worker (package downloader)\<close>

text \<open>
  The three patterns of \<open>Download\<close> use literals, the classes \<open>\d\<close>, \<open>\s\<close> and \<open>.\<close>, the
  greedy operators \<open>*\<close>, \<open>+\<close> and \<open>?\<close> on a single class, alternation and capture groups.
  \<open>matches\<close> lists the ways a pattern matches at the start of a string in the order a
  backtracking matcher tries them, which is the order Go's \<open>regexp\<close> package prefers
  (leftmost-first); a string is a list of bytes, and a line holds no newline.
\<close>

datatype CharClass = Lit char | Digit | Space | AnyCharNotNL

fun inClass :: "CharClass \<Rightarrow> char \<Rightarrow> bool" where
  "inClass (Lit c) x = (x = c)"
| "inClass Digit x = (x \<in> set ''0123456789'')"
| "inClass Space x = (x \<in> {CHR 0x09, CHR 0x0A, CHR 0x0C, CHR 0x0D, CHR '' ''})"
| "inClass AnyCharNotNL x = (x \<noteq> CHR 0x0A)"

datatype Regexp =
    OpEmptyMatch
  | OpChar CharClass
  | OpStar CharClass
  | OpPlus CharClass
  | OpQuest CharClass
  | OpConcat Regexp Regexp
  | OpAlternate Regexp Regexp
  | OpCapture nat Regexp

type_synonym MatchState = "(nat \<Rightarrow> string) \<times> string"

fun starRests :: "CharClass \<Rightarrow> string \<Rightarrow> string list" where
  "starRests c [] = [[]]"
| "starRests c (x # xs) = (if inClass c x then starRests c xs @ [x # xs] else [x # xs])"

fun matches :: "Regexp \<Rightarrow> MatchState \<Rightarrow> MatchState list" where
  "matches OpEmptyMatch st = [st]"
| "matches (OpChar c) (caps, s) =
     (case s of [] \<Rightarrow> [] | x # xs \<Rightarrow> if inClass c x then [(caps, xs)] else [])"
| "matches (OpStar c) (caps, s) = map (Pair caps) (starRests c s)"
| "matches (OpPlus c) (caps, s) =
     (case s of [] \<Rightarrow> []
      | x # xs \<Rightarrow> if inClass c x then map (Pair caps) (starRests c xs) else [])"
| "matches (OpQuest c) (caps, s) =
     (case s of [] \<Rightarrow> [(caps, [])]
      | x # xs \<Rightarrow> if inClass c x then [(caps, xs), (caps, x # xs)] else [(caps, x # xs)])"
| "matches (OpConcat r1 r2) st = concat (map (matches r2) (matches r1 st))"
| "matches (OpAlternate r1 r2) st = matches r1 st @ matches r2 st"
| "matches (OpCapture n r) (caps, s) =
     map (\<lambda>(caps', s'). (caps'(n := take (length s - length s') s), s'))
       (matches r (caps, s))"

fun NumSubexp :: "Regexp \<Rightarrow> nat" where
  "NumSubexp (OpConcat r1 r2) = NumSubexp r1 + NumSubexp r2"
| "NumSubexp (OpAlternate r1 r2) = NumSubexp r1 + NumSubexp r2"
| "NumSubexp (OpCapture n r) = Suc (NumSubexp r)"
| "NumSubexp _ = 0"

text \<open>The leftmost start position with a match, and there the preferred match.\<close>

fun search :: "Regexp \<Rightarrow> string \<Rightarrow> (string \<times> (nat \<Rightarrow> string)) option" where
  "search re [] =
     (case matches re (\<lambda>_. [], []) of [] \<Rightarrow> None | (caps, rest) # _ \<Rightarrow> Some ([], caps))"
| "search re (x # xs) =
     (case matches re (\<lambda>_. [], x # xs) of
        [] \<Rightarrow> search re xs
      | (caps, rest) # _ \<Rightarrow> Some (take (length (x # xs) - length rest) (x # xs), caps))"

text \<open>
  \<open>FindStringSubmatch\<close> returns \<open>nil\<close> (here the empty list) when nothing matches, else
  the matched text followed by the text of each group; \<open>MatchString\<close> only says whether
  there is a match.
\<close>

definition FindStringSubmatch :: "Regexp \<Rightarrow> string \<Rightarrow> string list" where
  "FindStringSubmatch re s =
     (case search re s of
        None \<Rightarrow> []
      | Some (whole, caps) \<Rightarrow> whole # map caps [1..<Suc (NumSubexp re)])"

definition MatchString :: "Regexp \<Rightarrow> string \<Rightarrow> bool" where
  "MatchString re s = (search re s \<noteq> None)"

definition lit :: "string \<Rightarrow> Regexp" where
  "lit s = foldr (\<lambda>c r. OpConcat (OpChar (Lit c)) r) s OpEmptyMatch"

text \<open>\<^verbatim>\<open>\[download\]\s+(\d+\.?\d*)%\<close>\<close>

definition downloadRe :: Regexp where
  "downloadRe =
     OpConcat (lit ''[download]'') (OpConcat (OpPlus Space)
       (OpConcat
          (OpCapture 1 (OpConcat (OpPlus Digit)
             (OpConcat (OpQuest (Lit CHR ''.'')) (OpStar Digit))))
          (OpChar (Lit CHR ''%''))))"

text \<open>\<^verbatim>\<open>Destination:\s+.*/(.+)\.(webm|m4a|mp3|opus|wav)\<close>\<close>

definition destRe :: Regexp where
  "destRe =
     OpConcat (lit ''Destination:'') (OpConcat (OpPlus Space) (OpConcat (OpStar AnyCharNotNL)
       (OpConcat (OpChar (Lit CHR ''/'')) (OpConcat (OpCapture 1 (OpPlus AnyCharNotNL))
         (OpConcat (OpChar (Lit CHR ''.''))
           (OpCapture 2 (OpAlternate (lit ''webm'') (OpAlternate (lit ''m4a'')
              (OpAlternate (lit ''mp3'') (OpAlternate (lit ''opus'') (lit ''wav'')))))))))))"

text \<open>\<^verbatim>\<open>\[ExtractAudio\]\<close>\<close>

definition extractRe :: Regexp where
  "extractRe = lit ''[ExtractAudio]''"

section \<open>The worker (package downloader)\<close>

text \<open>
  \<open>strings.ReplaceAll\<close> for a one-byte pattern and replacement, and the \<open>%f\<close> scan of
  a capture of \<open>downloadRe\<close> (digits, then possibly a point and more digits) into a
  variable that held zero: the decimal value of the text. Go stores the nearest binary64
  value, and leaves the zero when the value overflows; the model is exact where the
  decimal is representable, as 10, 42.5 and 100 are.
\<close>

definition ReplaceAll :: "string \<Rightarrow> char \<Rightarrow> char \<Rightarrow> string" where
  "ReplaceAll s old new = map (\<lambda>c. if c = old then new else c) s"

definition digitsValue :: "string \<Rightarrow> nat" where
  "digitsValue ds = foldl (\<lambda>n c. 10 * n + (of_char c - 48)) 0 ds"

definition Sscanf_f :: "string \<Rightarrow> rat" where
  "Sscanf_f s =
     (let ip = takeWhile (inClass Digit) s;
          fp = (case dropWhile (inClass Digit) s of
                  [] \<Rightarrow> []
                | c # r \<Rightarrow> if c = CHR ''.'' then takeWhile (inClass Digit) r else [])
      in if ip = [] then 0
         else of_nat (digitsValue ip) + of_nat (digitsValue fp) / 10 ^ length fp)"

text \<open>
  The messages \<open>Download\<close> sends itself (its parameter \<open>id\<close> is written \<open>wid\<close>
  here): the first one, the failures before the task runs, and the one after \<open>cmd.Wait\<close>
  (\<open>waitErr\<close> says that it returned an error, as it does on a non-zero exit status).
\<close>

definition Download_started :: "int \<Rightarrow> ProgressMsg" where
  "Download_started wid =
     \<lparr> msgID = wid, msgStatus = StatusDownloading, msgProgress = 0, msgTitle = [],
       msgError = None \<rparr>"

definition Download_setup_failed :: "int \<Rightarrow> string \<Rightarrow> ProgressMsg" where
  "Download_setup_failed wid err =
     \<lparr> msgID = wid, msgStatus = StatusFailed, msgProgress = 0, msgTitle = [],
       msgError = Some err \<rparr>"

definition Download_wait :: "int \<Rightarrow> string \<Rightarrow> bool \<Rightarrow> ProgressMsg" where
  "Download_wait wid title waitErr =
     (if waitErr
      then \<lparr> msgID = wid, msgStatus = StatusFailed, msgProgress = 0, msgTitle = title,
             msgError = Some ''download failed'' \<rparr>
      else \<lparr> msgID = wid, msgStatus = StatusCompleted, msgProgress = 100, msgTitle = title,
             msgError = None \<rparr>)"

text \<open>
  The body of the loop that reads stdout, for one line: the title it leaves in the
  variable \<open>title\<close> and the messages it sends, in order. The three tests are independent
  \<open>if\<close>s, so one line can send up to three messages.
\<close>

definition stdout_line :: "int \<Rightarrow> string \<Rightarrow> string \<Rightarrow> string \<times> ProgressMsg list" where
  "stdout_line wid title line =
     (let dm = FindStringSubmatch destRe line;
          title1 = (if length dm > 1 then ReplaceAll (dm ! 1) (CHR ''_'') (CHR '' '') else title);
          ev1 = (if length dm > 1
                 then [\<lparr> msgID = wid, msgStatus = StatusDownloading, msgProgress = 0,
                          msgTitle = title1, msgError = None \<rparr>]
                 else []);
          pm = FindStringSubmatch downloadRe line;
          ev2 = (if length pm > 1
                 then [\<lparr> msgID = wid, msgStatus = StatusDownloading,
                          msgProgress = Sscanf_f (pm ! 1), msgTitle = title1,
                          msgError = None \<rparr>]
                 else []);
          ev3 = (if MatchString extractRe line
                 then [\<lparr> msgID = wid, msgStatus = StatusConverting, msgProgress = 100,
                          msgTitle = title1, msgError = None \<rparr>]
                 else [])
      in (title1, ev1 @ ev2 @ ev3))"

text \<open>The body of the loop that reads stderr: a destination line only sets the title.\<close>

definition stderr_line :: "int \<Rightarrow> string \<Rightarrow> string \<Rightarrow> string \<times> ProgressMsg list" where
  "stderr_line wid title line =
     (let dm = FindStringSubmatch destRe line;
          title1 = (if length dm > 1 then ReplaceAll (dm ! 1) (CHR ''_'') (CHR '' '') else title);
          pm = FindStringSubmatch downloadRe line;
          ev2 = (if length pm > 1
                 then [\<lparr> msgID = wid, msgStatus = StatusDownloading,
                          msgProgress = Sscanf_f (pm ! 1), msgTitle = title1,
                          msgError = None \<rparr>]
                 else [])
      in (title1, ev2))"

text \<open>
  The two loops over the lines of a stream, taken as already split by the scanner (which
  gives up on a line longer than 64 KiB; such lines are not modelled).
\<close>

fun stdout_loop :: "int \<Rightarrow> string \<Rightarrow> string list \<Rightarrow> string \<times> ProgressMsg list" where
  "stdout_loop wid title [] = (title, [])"
| "stdout_loop wid title (line # lines) =
     (case stdout_line wid title line of
        (title1, evs1) \<Rightarrow>
          (case stdout_loop wid title1 lines of (title2, evs2) \<Rightarrow> (title2, evs1 @ evs2)))"

fun stderr_loop :: "int \<Rightarrow> string \<Rightarrow> string list \<Rightarrow> string \<times> ProgressMsg list" where
  "stderr_loop wid title [] = (title, [])"
| "stderr_loop wid title (line # lines) =
     (case stderr_line wid title line of
        (title1, evs1) \<Rightarrow>
          (case stderr_loop wid title1 lines of (title2, evs2) \<Rightarrow> (title2, evs1 @ evs2)))"

text \<open>
  What the external task does in one call: whether a pipe or the start fails (with which
  error), the lines it writes on each stream, and whether the wait reports a failure.
\<close>

record Task =
  stdoutPipeErr :: "string option"
  stderrPipeErr :: "string option"
  startErr :: "string option"
  stdoutLines :: "string list"
  stderrLines :: "string list"
  waitErr :: bool

text \<open>
  The messages of one call of \<open>Download\<close> in the order they reach the channel when the
  loop on stdout runs to the end of its stream, then the loop on stderr, and only then
  \<open>cmd.Wait\<close> returns. The two loops and the wait run as three goroutines that share the
  variable \<open>title\<close>; this is the execution in which they take turns in that order,
  one of several (\<open>Download_orders\<close> below has the others).
\<close>

definition Download_drained :: "int \<Rightarrow> Task \<Rightarrow> ProgressMsg list" where
  "Download_drained wid t =
     Download_started wid #
     (case stdoutPipeErr t of Some err \<Rightarrow> [Download_setup_failed wid err]
      | None \<Rightarrow>
     (case stderrPipeErr t of Some err \<Rightarrow> [Download_setup_failed wid err]
      | None \<Rightarrow>
     (case startErr t of Some err \<Rightarrow> [Download_setup_failed wid err]
      | None \<Rightarrow>
     (case stdout_loop wid [] (stdoutLines t) of
        (title1, evs1) \<Rightarrow>
          (case stderr_loop wid title1 (stderrLines t) of
             (title2, evs2) \<Rightarrow> evs1 @ evs2 @ [Download_wait wid title2 (waitErr t)])))))"

text \<open>
  The orders in which the messages of one call of \<open>Download\<close> can reach the channel.
  Started is sent before the two goroutines exist; after that the messages of the loop on
  stdout, those of the loop on stderr and the one sent after \<open>cmd.Wait\<close> interleave in
  any way that keeps each goroutine's own order, since nothing in \<open>Download\<close> waits for
  the loops before that last send. Each loop carries the titles it stores itself (the
  writes of the other loop to the shared variable are not followed); the title of the
  last message is one that either loop has stored after some of its lines.
\<close>

definition Download_orders :: "int \<Rightarrow> Task \<Rightarrow> ProgressMsg list set" where
  "Download_orders wid t =
     (case stdoutPipeErr t of
        Some err \<Rightarrow> {[Download_started wid, Download_setup_failed wid err]}
      | None \<Rightarrow>
     (case stderrPipeErr t of
        Some err \<Rightarrow> {[Download_started wid, Download_setup_failed wid err]}
      | None \<Rightarrow>
     (case startErr t of
        Some err \<Rightarrow> {[Download_started wid, Download_setup_failed wid err]}
      | None \<Rightarrow>
        {Download_started wid # zs | zs ys title.
           ys \<in> shuffles (snd (stdout_loop wid [] (stdoutLines t)))
                          (snd (stderr_loop wid [] (stderrLines t))) \<and>
           title \<in> {fst (stdout_loop wid [] (take k (stdoutLines t))) | k. True} \<union>
                   {fst (stderr_loop wid [] (take k (stderrLines t))) | k. True} \<and>
           zs \<in> shuffles ys [Download_wait wid title (waitErr t)]})))"

text \<open>A task that opens and starts without error and writes on stdout only.\<close>

definition stdoutTask :: "string list \<Rightarrow> bool \<Rightarrow> Task" where
  "stdoutTask lines werr =
     \<lparr> stdoutPipeErr = None, stderrPipeErr = None, startErr = None, stdoutLines = lines,
       stderrLines = [], waitErr = werr \<rparr>"

section \<open>Notions of the specification\<close>

text \<open>
  The number of items whose status is Running (\<open>StatusDownloading\<close>) or Converting,
  the number of completed items, and the state machine of an item:
  Pending \<open>\<rightarrow>\<close> Running \<open>\<rightarrow>\<close> Converting \<open>\<rightarrow>\<close> Completed, Running \<open>\<rightarrow>\<close> Completed, and
  Failed from Running or Converting. A sequence of observed statuses is a valid path when,
  repetitions of the current status apart, it starts at Pending, follows the arrows and
  visits no state twice.
\<close>

definition numActive :: "Model \<Rightarrow> nat" where
  "numActive m =
     length (filter (\<lambda>it. Status it = StatusDownloading \<or> Status it = StatusConverting)
               (items m))"

definition numCompleted :: "Model \<Rightarrow> nat" where
  "numCompleted m = length (filter (\<lambda>it. Status it = StatusCompleted) (items m))"

definition smStep :: "Status \<Rightarrow> Status \<Rightarrow> bool" where
  "smStep a b =
     ((a, b) \<in> {(StatusPending, StatusDownloading), (StatusDownloading, StatusConverting),
                 (StatusDownloading, StatusCompleted), (StatusConverting, StatusCompleted),
                 (StatusDownloading, StatusFailed), (StatusConverting, StatusFailed)})"

definition validPath :: "Status list \<Rightarrow> bool" where
  "validPath xs =
     (case remdups_adj xs of
        [] \<Rightarrow> False
      | y # ys \<Rightarrow> y = StatusPending \<and> successively smStep (y # ys) \<and> distinct (y # ys))"

section \<open>Facts about the aggregator\<close>

lemma admitNext_cases:
  "admitNext m is = (m, []) \<or>
   (\<exists>sp. admitNext m is = (m\<lparr>activeCount := activeCount m + 1\<rparr>, [sp]))"
  by (induction "is") simp_all

lemma admitNext_fst:
  "fst (admitNext m is) = m\<lparr>activeCount := activeCount m + int (length (snd (admitNext m is)))\<rparr>"
  using admitNext_cases [of m "is"] by auto

lemma admitNext_length: "length (snd (admitNext m is)) \<le> 1"
  using admitNext_cases [of m "is"] by auto

lemma admitNext_find:
  "activeCount m < parallel m \<Longrightarrow>
   snd (admitNext m is) =
     (case find (\<lambda>i. Status (items m ! i) = StatusPending) is of
        None \<Rightarrow> []
      | Some j \<Rightarrow> [GoDownload (int j) (URL (items m ! j)) (config m)])"
  by (induction "is") simp_all

lemma admitNext_none:
  "\<forall>i\<in>set is. Status (items m ! i) \<noteq> StatusPending \<Longrightarrow> admitNext m is = (m, [])"
  by (induction "is") simp_all

lemma find_upt_least:
  assumes "j < n" "P j"
  shows "\<exists>j0. find P [0..<n] = Some j0 \<and> j0 < n \<and> P j0 \<and> (\<forall>k<j0. \<not> P k)"
proof -
  from assms(2) have "\<exists>k. P k" ..
  then obtain j0 where p: "P j0" and least: "\<forall>k<j0. \<not> P k"
    unfolding exists_least_iff [of P] by blast
  have "\<not> j < j0" using least assms(2) by blast
  then have lt: "j0 < n" using assms(1) by simp
  have "\<exists>i<length [0..<n]. P ([0..<n] ! i) \<and> j0 = [0..<n] ! i \<and> (\<forall>k<i. \<not> P ([0..<n] ! k))"
  proof (intro exI conjI)
    show "j0 < length [0..<n]" using lt by simp
    show "P ([0..<n] ! j0)" using lt p by simp
    show "j0 = [0..<n] ! j0" using lt by simp
    show "\<forall>k<j0. \<not> P ([0..<n] ! k)" using lt least by simp
  qed
  then have "find P [0..<n] = Some j0" by (simp only: find_Some_iff)
  with lt p least show ?thesis by blast
qed

lemma handleProgress_nonterminal:
  assumes "0 \<le> msgID msg" "msgID msg < int (length (items m))"
    and "msgStatus msg \<noteq> StatusCompleted" "msgStatus msg \<noteq> StatusFailed"
  shows "handleProgress m msg =
           (m\<lparr>items := (items m)[nat (msgID msg) := applyMsg (items m ! nat (msgID msg)) msg]\<rparr>,
            [], Batch [WaitForProgress, SpinnerTick])"
  using assms by (simp add: handleProgress_def Let_def)

lemma handleProgress_terminal:
  assumes r: "0 \<le> msgID msg" "msgID msg < int (length (items m))"
    and t: "msgStatus msg = StatusCompleted \<or> msgStatus msg = StatusFailed"
  shows "handleProgress m msg =
           (let sp = snd (admitNext (counted m msg) [0..<length (items m)]);
                m4 = (counted m msg)\<lparr>activeCount := activeCount m - 1 + int (length sp)\<rparr>
            in if completed m + failed m + 1 = int (length (items m))
               then (m4\<lparr>doneFlag := True\<rparr>, sp, Quit)
               else (m4, sp, Batch [WaitForProgress, SpinnerTick]))"
proof -
  let ?m3 = "counted m msg"
  have hp: "handleProgress m msg =
     (case admitNext ?m3 [0..<length (items m)] of
        (m4, sp) \<Rightarrow>
          if completed m4 + failed m4 = int (length (items m4))
          then (m4\<lparr>doneFlag := True\<rparr>, sp, Quit)
          else (m4, sp, Batch [WaitForProgress, SpinnerTick]))"
    using r t by (auto simp: handleProgress_def Let_def counted_def)
  have f3: "completed ?m3 + failed ?m3 = completed m + failed m + 1"
    "length (items ?m3) = length (items m)" "activeCount ?m3 = activeCount m - 1"
    by (simp_all add: counted_def)
  obtain m4 sp where a: "admitNext ?m3 [0..<length (items m)] = (m4, sp)"
    by (cases "admitNext ?m3 [0..<length (items m)]")
  from admitNext_fst [of ?m3 "[0..<length (items m)]"] a
  have m4: "m4 = ?m3\<lparr>activeCount := activeCount m - 1 + int (length sp)\<rparr>"
    by (simp add: f3)
  show ?thesis
    by (simp add: hp a Let_def) (simp add: m4 f3)
qed

lemma handleProgress_items:
  assumes "0 \<le> msgID msg" "msgID msg < int (length (items m))"
  shows "items (fst (handleProgress m msg)) =
           (items m)[nat (msgID msg) := applyMsg (items m ! nat (msgID msg)) msg]"
proof (cases "msgStatus msg = StatusCompleted \<or> msgStatus msg = StatusFailed")
  case True
  then show ?thesis
    using assms by (simp add: handleProgress_terminal Let_def counted_def)
next
  case False
  then show ?thesis
    using assms by (simp add: handleProgress_nonterminal)
qed

lemma handleProgress_same:
  "config (fst (handleProgress m msg)) = config m \<and>
   parallel (fst (handleProgress m msg)) = parallel m \<and>
   width (fst (handleProgress m msg)) = width m \<and>
   quitting (fst (handleProgress m msg)) = quitting m \<and>
   length (items (fst (handleProgress m msg))) = length (items m)"
proof (cases "0 \<le> msgID msg \<and> msgID msg < int (length (items m))")
  case False
  then show ?thesis by (auto simp: handleProgress_def)
next
  case r: True
  show ?thesis
  proof (cases "msgStatus msg = StatusCompleted \<or> msgStatus msg = StatusFailed")
    case True
    then show ?thesis
      using r by (simp add: handleProgress_terminal Let_def counted_def)
  next
    case False
    then show ?thesis
      using r by (simp add: handleProgress_nonterminal)
  qed
qed

lemma handleProgress_counters:
  assumes "0 \<le> msgID msg" "msgID msg < int (length (items m))"
    and "msgStatus msg = StatusCompleted \<or> msgStatus msg = StatusFailed"
  shows "activeCount (fst (handleProgress m msg)) =
           activeCount m - 1 + int (length (fst (snd (handleProgress m msg))))"
    and "fst (snd (handleProgress m msg)) = snd (admitNext (counted m msg) [0..<length (items m)])"
    and "completed (fst (handleProgress m msg)) =
           completed m + (if msgStatus msg = StatusCompleted then 1 else 0)"
    and "failed (fst (handleProgress m msg)) =
           failed m + (if msgStatus msg = StatusCompleted then 0 else 1)"
  using assms by (simp_all add: handleProgress_terminal Let_def counted_def)

lemma handleProgress_activeCount_le:
  "activeCount (fst (handleProgress m msg)) \<le> activeCount m"
proof (cases "0 \<le> msgID msg \<and> msgID msg < int (length (items m))")
  case False
  then show ?thesis by (auto simp: handleProgress_def)
next
  case r: True
  show ?thesis
  proof (cases "msgStatus msg = StatusCompleted \<or> msgStatus msg = StatusFailed")
    case True
    with r have "activeCount (fst (handleProgress m msg)) =
        activeCount m - 1 + int (length (snd (admitNext (counted m msg) [0..<length (items m)])))"
      by (simp add: handleProgress_counters)
    with admitNext_length [of "counted m msg" "[0..<length (items m)]"] show ?thesis
      by linarith
  next
    case False
    then show ?thesis
      using r by (simp add: handleProgress_nonterminal)
  qed
qed

lemma run_same:
  "parallel (run m es) = parallel m \<and> length (items (run m es)) = length (items m) \<and>
   config (run m es) = config m"
  by (induction es arbitrary: m) (simp_all add: handleProgress_same)

lemma run_activeCount_le: "activeCount (run m es) \<le> activeCount m"
proof (induction es arbitrary: m)
  case Nil
  show ?case by simp
next
  case (Cons e es)
  have "activeCount (run (fst (handleProgress m e)) es) \<le> activeCount (fst (handleProgress m e))"
    by (rule Cons.IH)
  also have "\<dots> \<le> activeCount m" by (rule handleProgress_activeCount_le)
  finally show ?case by simp
qed

lemma startLoop_bound:
  "started \<le> parallel m \<Longrightarrow>
   activeCount (fst (startLoop m started is)) \<le> activeCount m + (parallel m - started) \<and>
   parallel (fst (startLoop m started is)) = parallel m"
proof (induction "is" arbitrary: m started)
  case Nil
  then show ?case by simp
next
  case (Cons i "is")
  show ?case
  proof (cases "started \<ge> parallel m")
    case True
    then show ?thesis using Cons.prems by simp
  next
    case lt: False
    show ?thesis
    proof (cases "Status (items m ! i) = StatusPending")
      case True
      have "started + 1 \<le> parallel (m\<lparr>activeCount := activeCount m + 1\<rparr>)"
        using lt by simp
      from Cons.IH [OF this] lt True show ?thesis
        by (cases "startLoop (m\<lparr>activeCount := activeCount m + 1\<rparr>) (started + 1) is") simp
    next
      case False
      with lt Cons.IH [OF Cons.prems] show ?thesis by simp
    qed
  qed
qed

lemma startStates_bound:
  assumes "m0 \<in> startStates urls cfg p" "0 \<le> p"
  shows "activeCount m0 \<le> parallel m0"
proof -
  have n: "activeCount (NewModel urls cfg p) = 0" "parallel (NewModel urls cfg p) = p"
    by (simp_all add: NewModel_def)
  from assms(1) consider "m0 = NewModel urls cfg p"
    | "m0 = fst (startDownloads (NewModel urls cfg p))"
    by (auto simp: startStates_def)
  then show ?thesis
  proof cases
    case 1
    then show ?thesis using assms(2) n by simp
  next
    case 2
    from startLoop_bound [of 0 "NewModel urls cfg p" "[0..<length (items (NewModel urls cfg p))]"]
    show ?thesis using assms(2) n 2 by (simp add: startDownloads_def)
  qed
qed

lemma reachable_bound:
  assumes "m0 \<in> startStates urls cfg p" "0 \<le> p"
  shows "activeCount (run m0 es) \<le> parallel (run m0 es)"
proof -
  have "activeCount (run m0 es) \<le> activeCount m0" by (rule run_activeCount_le)
  also have "\<dots> \<le> parallel m0" using assms by (rule startStates_bound)
  finally show ?thesis by (simp add: run_same)
qed

section \<open>Evaluation\<close>

text \<open>The definitions a concrete line, and a concrete run, unfold to.\<close>

lemmas re_defs = FindStringSubmatch_def MatchString_def destRe_def downloadRe_def extractRe_def
  lit_def Sscanf_f_def digitsValue_def ReplaceAll_def Let_def

lemmas run_defs = NewModel_def handleProgress_def Download_started_def Download_wait_def
  applyMsg_def Let_def

section \<open>Frame of an event\<close>

text \<open>
  One item, started, and its Completed message: besides the item and the counters, the
  flag \<open>done\<close> of the model changes, from false to true.
\<close>

theorem handleProgress_frame_counterexample:
  "\<not> doneFlag (run (NewModel [''u''] defaultConfig 1) [Download_started 0]) \<and>
   doneFlag (fst (handleProgress (run (NewModel [''u''] defaultConfig 1) [Download_started 0])
                                 (Download_wait 0 [] False)))"
  by (simp add: run_defs)

text \<open>
  Claim C10, amended. An event in range with index \<open>i\<close> changes at most item \<open>i\<close>, the
  batch counters and the flag that says the batch is done: the new model is the old one
  with item \<open>i\<close> replaced and with new values of \<open>activeCount\<close>, \<open>completed\<close>,
  \<open>failed\<close> and \<open>doneFlag\<close>. The table keeps its length, every item with another index
  is unchanged, and item \<open>i\<close> keeps its URL.
\<close>

theorem handleProgress_frame:
  assumes "0 \<le> msgID msg" "msgID msg < int (length (items m))"
  shows "(\<exists>it a c f d.
            fst (handleProgress m msg) =
              m\<lparr>items := (items m)[nat (msgID msg) := it], activeCount := a, completed := c,
                failed := f, doneFlag := d\<rparr> \<and>
            URL it = URL (items m ! nat (msgID msg))) \<and>
         length (items (fst (handleProgress m msg))) = length (items m) \<and>
         (\<forall>j. j \<noteq> nat (msgID msg) \<longrightarrow>
              items (fst (handleProgress m msg)) ! j = items m ! j) \<and>
         URL (items (fst (handleProgress m msg)) ! nat (msgID msg)) =
           URL (items m ! nat (msgID msg))"
proof -
  let ?i = "nat (msgID msg)"
  let ?it = "applyMsg (items m ! ?i) msg"
  have i: "?i < length (items m)" using assms by simp
  have url: "URL ?it = URL (items m ! ?i)"
    by (simp add: applyMsg_def Let_def)
  have its: "items (fst (handleProgress m msg)) = (items m)[?i := ?it]"
    using assms by (rule handleProgress_items)
  have shape: "\<exists>a c f d. fst (handleProgress m msg) =
      m\<lparr>items := (items m)[?i := ?it], activeCount := a, completed := c, failed := f,
        doneFlag := d\<rparr>"
  proof (cases "msgStatus msg = StatusCompleted \<or> msgStatus msg = StatusFailed")
    case False
    then have "fst (handleProgress m msg) =
        m\<lparr>items := (items m)[?i := ?it], activeCount := activeCount m,
          completed := completed m, failed := failed m, doneFlag := doneFlag m\<rparr>"
      using assms by (simp add: handleProgress_nonterminal)
    then show ?thesis by blast
  next
    case True
    let ?sp = "snd (admitNext (counted m msg) [0..<length (items m)])"
    have "fst (handleProgress m msg) =
        m\<lparr>items := (items m)[?i := ?it],
          activeCount := activeCount m - 1 + int (length ?sp),
          completed := completed m + (if msgStatus msg = StatusCompleted then 1 else 0),
          failed := failed m + (if msgStatus msg = StatusCompleted then 0 else 1),
          doneFlag := (doneFlag m \<or> completed m + failed m + 1 = int (length (items m)))\<rparr>"
      using assms True by (simp add: handleProgress_terminal Let_def counted_def)
    then show ?thesis by blast
  qed
  have others: "\<forall>j. j \<noteq> ?i \<longrightarrow> items (fst (handleProgress m msg)) ! j = items m ! j"
    by (simp add: its)
  have same: "URL (items (fst (handleProgress m msg)) ! ?i) = URL (items m ! ?i)"
    using i by (simp add: its url)
  from shape obtain a c f d where
    "fst (handleProgress m msg) =
       m\<lparr>items := (items m)[?i := ?it], activeCount := a, completed := c, failed := f,
         doneFlag := d\<rparr>"
    by blast
  with url have first: "\<exists>it a c f d.
      fst (handleProgress m msg) =
        m\<lparr>items := (items m)[?i := it], activeCount := a, completed := c, failed := f,
          doneFlag := d\<rparr> \<and>
      URL it = URL (items m ! ?i)"
    by blast
  have len: "length (items (fst (handleProgress m msg))) = length (items m)"
    by (simp add: its)
  from first len others same show ?thesis by (intro conjI)
qed

theorem handleProgress_frame_witness:
  "0 \<le> msgID (Download_wait 0 ''T'' False) \<and>
   msgID (Download_wait 0 ''T'' False) < int (length (items (NewModel [''a'', ''b''] defaultConfig 1))) \<and>
   items (fst (handleProgress (NewModel [''a'', ''b''] defaultConfig 1) (Download_wait 0 ''T'' False))) ! 1
     = items (NewModel [''a'', ''b''] defaultConfig 1) ! 1 \<and>
   URL (items (fst (handleProgress (NewModel [''a'', ''b''] defaultConfig 1)
                      (Download_wait 0 ''T'' False))) ! 0) = ''a''"
  using handleProgress_frame [of "Download_wait 0 ''T'' False" "NewModel [''a'', ''b''] defaultConfig 1"]
  by (simp add: Download_wait_def NewModel_def)

section \<open>The line classifier\<close>

text \<open>
  Claim C7. The line \<^verbatim>\<open>[download]  42.5% of ...\<close> makes the loop of either stream send
  exactly one message, a progress update (status Downloading) with percent 42.5 and the
  title known so far. A line on which none of the three patterns matches sends nothing
  and leaves the title as it was; the empty line is such a line.
\<close>

theorem classify_progress_line:
  "stdout_line wid title ''[download]  42.5% of ...'' =
     (title, [\<lparr> msgID = wid, msgStatus = StatusDownloading, msgProgress = 42.5,
                 msgTitle = title, msgError = None \<rparr>]) \<and>
   stderr_line wid title ''[download]  42.5% of ...'' =
     (title, [\<lparr> msgID = wid, msgStatus = StatusDownloading, msgProgress = 42.5,
                 msgTitle = title, msgError = None \<rparr>]) \<and>
   (FindStringSubmatch destRe line = [] \<and> FindStringSubmatch downloadRe line = [] \<and>
    \<not> MatchString extractRe line \<longrightarrow>
      stdout_line wid title line = (title, []) \<and> stderr_line wid title line = (title, [])) \<and>
   stdout_line wid title [] = (title, []) \<and> stderr_line wid title [] = (title, [])"
proof -
  have a: "FindStringSubmatch destRe ''[download]  42.5% of ...'' = []"
    by (simp add: re_defs)
  have b: "FindStringSubmatch downloadRe ''[download]  42.5% of ...'' = [''[download]  42.5%'', ''42.5'']"
    by (simp add: re_defs)
  have c: "\<not> MatchString extractRe ''[download]  42.5% of ...''"
    by (simp add: re_defs)
  have d: "Sscanf_f ''42.5'' = 42.5"
    by (simp add: re_defs)
  have e: "FindStringSubmatch destRe [] = []" "FindStringSubmatch downloadRe [] = []" "\<not> MatchString extractRe []"
    by (simp_all add: re_defs)
  show ?thesis
    by (simp add: stdout_line_def stderr_line_def a b c d e Let_def)
qed

theorem classify_progress_line_witness:
  "FindStringSubmatch destRe ''[youtube] Extracting URL'' = [] \<and>
   FindStringSubmatch downloadRe ''[youtube] Extracting URL'' = [] \<and>
   \<not> MatchString extractRe ''[youtube] Extracting URL'' \<and>
   stdout_line 0 ''T'' ''[youtube] Extracting URL'' = (''T'', []) \<and>
   stderr_line 0 ''T'' ''[youtube] Extracting URL'' = (''T'', [])"
proof -
  have a: "FindStringSubmatch destRe ''[youtube] Extracting URL'' = []"
    by (simp add: re_defs)
  have b: "FindStringSubmatch downloadRe ''[youtube] Extracting URL'' = []"
    by (simp add: re_defs)
  have c: "\<not> MatchString extractRe ''[youtube] Extracting URL''"
    by (simp add: re_defs)
  show ?thesis
    using classify_progress_line [of 0 "''T''" "''[youtube] Extracting URL''"] a b c by simp
qed

text \<open>
  Claim C8. On the line \<^verbatim>\<open>Destination: /out/My_Song.webm\<close> the first group of the
  destination pattern is \<^verbatim>\<open>My_Song\<close> (the directory and the extension are outside the
  group), and the title set from it is \<^verbatim>\<open>My Song\<close>: the loop on stdout sends it in a
  message that makes it the title of the item, the loop on stderr stores it. No
  underscore is left in a title, whatever the captured text.
\<close>

theorem classify_destination_line:
  "FindStringSubmatch destRe ''Destination: /out/My_Song.webm'' =
     [''Destination: /out/My_Song.webm'', ''My_Song'', ''webm''] \<and>
   stdout_line wid title ''Destination: /out/My_Song.webm'' =
     (''My Song'', [\<lparr> msgID = wid, msgStatus = StatusDownloading, msgProgress = 0,
                       msgTitle = ''My Song'', msgError = None \<rparr>]) \<and>
   stderr_line wid title ''Destination: /out/My_Song.webm'' = (''My Song'', []) \<and>
   Title (applyMsg item \<lparr> msgID = wid, msgStatus = StatusDownloading, msgProgress = 0,
                       msgTitle = ''My Song'', msgError = None \<rparr>) = ''My Song'' \<and>
   CHR ''_'' \<notin> set (ReplaceAll s (CHR ''_'') (CHR '' ''))"
proof -
  have a: "FindStringSubmatch destRe ''Destination: /out/My_Song.webm'' =
     [''Destination: /out/My_Song.webm'', ''My_Song'', ''webm'']"
    by (simp add: re_defs)
  have b: "FindStringSubmatch downloadRe ''Destination: /out/My_Song.webm'' = []"
    by (simp add: re_defs)
  have c: "\<not> MatchString extractRe ''Destination: /out/My_Song.webm''"
    by (simp add: re_defs)
  have d: "ReplaceAll ''My_Song'' (CHR ''_'') (CHR '' '') = ''My Song''"
    by (simp add: ReplaceAll_def)
  have e: "CHR ''_'' \<notin> set (ReplaceAll s (CHR ''_'') (CHR '' ''))"
    by (auto simp: ReplaceAll_def)
  show ?thesis
    by (simp add: stdout_line_def stderr_line_def a b c d e applyMsg_def Let_def)
qed

section \<open>A failed task\<close>

text \<open>
  The task prints one progress line with 10 percent and exits with a non-zero status.
  The messages are Started, the update with percent 10, and Failed. After the update the
  item shows 10 percent; the Failed message carries no percent (its field is zero), and
  the aggregator copies the field: the item ends Failed with percent 0, not 10.
\<close>

theorem failed_keeps_progress_counterexample:
  "Download_drained 0 (stdoutTask [''[download]  10.0% of 3.00MiB''] True) =
     [Download_started 0,
      \<lparr> msgID = 0, msgStatus = StatusDownloading, msgProgress = 10, msgTitle = [],
        msgError = None \<rparr>,
      Download_wait 0 [] True] \<and>
   Progress (items (run (NewModel [''u''] defaultConfig 1)
      [Download_started 0,
       \<lparr> msgID = 0, msgStatus = StatusDownloading, msgProgress = 10, msgTitle = [],
         msgError = None \<rparr>]) ! 0) = 10 \<and>
   Status (items (run (NewModel [''u''] defaultConfig 1)
      (Download_drained 0 (stdoutTask [''[download]  10.0% of 3.00MiB''] True))) ! 0)
     = StatusFailed \<and>
   Progress (items (run (NewModel [''u''] defaultConfig 1)
      (Download_drained 0 (stdoutTask [''[download]  10.0% of 3.00MiB''] True))) ! 0)
     \<noteq> 10"
proof -
  have ev: "Download_drained 0 (stdoutTask [''[download]  10.0% of 3.00MiB''] True) =
     [Download_started 0,
      \<lparr> msgID = 0, msgStatus = StatusDownloading, msgProgress = 10, msgTitle = [],
        msgError = None \<rparr>,
      Download_wait 0 [] True]"
    by (simp add: Download_drained_def stdoutTask_def stdout_line_def re_defs)
  have before: "Progress (items (run (NewModel [''u''] defaultConfig 1)
      [Download_started 0,
       \<lparr> msgID = 0, msgStatus = StatusDownloading, msgProgress = 10, msgTitle = [],
         msgError = None \<rparr>]) ! 0) = 10"
    by (simp add: run_defs)
  have after: "items (run (NewModel [''u''] defaultConfig 1)
      [Download_started 0,
       \<lparr> msgID = 0, msgStatus = StatusDownloading, msgProgress = 10, msgTitle = [],
         msgError = None \<rparr>,
       Download_wait 0 [] True]) =
     [\<lparr> URL = ''u'', Title = [], Status = StatusFailed, Progress = 0,
        Error = Some ''download failed'' \<rparr>]"
    by (simp add: run_defs)
  show ?thesis
    unfolding ev using before after by simp
qed

text \<open>
  Claim C1, amended. After the aggregator applies the Failed message that \<open>Download\<close>
  sends when the wait reports a failure, the item's status is Failed, its error is the
  non-empty text \<^verbatim>\<open>download failed\<close>, and its percent is the one the message carries,
  which is 0, whatever was observed before.
\<close>

theorem failed_event_applied:
  assumes "0 \<le> wid" "wid < int (length (items m))"
  shows "Status (items (fst (handleProgress m (Download_wait wid title True))) ! nat wid)
           = StatusFailed \<and>
         Error (items (fst (handleProgress m (Download_wait wid title True))) ! nat wid)
           = Some ''download failed'' \<and>
         Progress (items (fst (handleProgress m (Download_wait wid title True))) ! nat wid)
           = 0"
proof -
  have r: "0 \<le> msgID (Download_wait wid title True)"
    "msgID (Download_wait wid title True) < int (length (items m))"
    using assms by (simp_all add: Download_wait_def)
  have i: "nat wid < length (items m)" using assms by simp
  have id: "nat (msgID (Download_wait wid title True)) = nat wid"
    by (simp add: Download_wait_def)
  show ?thesis
    using i by (simp add: handleProgress_items [OF r] id) (simp add: applyMsg_def Download_wait_def Let_def)
qed

theorem failed_event_applied_witness:
  "(0::int) \<le> 0 \<and>
   (0::int) < int (length (items (run (NewModel [''u''] defaultConfig 1)
      [Download_started 0,
       \<lparr> msgID = 0, msgStatus = StatusDownloading, msgProgress = 10, msgTitle = [],
         msgError = None \<rparr>]))) \<and>
   Progress (items (fst (handleProgress (run (NewModel [''u''] defaultConfig 1)
      [Download_started 0,
       \<lparr> msgID = 0, msgStatus = StatusDownloading, msgProgress = 10, msgTitle = [],
         msgError = None \<rparr>]) (Download_wait 0 [] True))) ! 0) = 0 \<and>
   Status (items (fst (handleProgress (run (NewModel [''u''] defaultConfig 1)
      [Download_started 0,
       \<lparr> msgID = 0, msgStatus = StatusDownloading, msgProgress = 10, msgTitle = [],
         msgError = None \<rparr>]) (Download_wait 0 [] True))) ! 0) = StatusFailed"
proof -
  have len: "(0::int) < int (length (items (run (NewModel [''u''] defaultConfig 1)
      [Download_started 0,
       \<lparr> msgID = 0, msgStatus = StatusDownloading, msgProgress = 10, msgTitle = [],
         msgError = None \<rparr>])))"
    by (simp add: handleProgress_same NewModel_def)
  from failed_event_applied [OF order_refl len, of "[]"] len show ?thesis by simp
qed

section \<open>Duplicate terminal events\<close>

text \<open>
  Two items, both started, and the Completed message of item 0 applied twice: whether the
  run starts from the model of the program or from the copy that counted the launches,
  \<open>completed\<close> is 2 although one item is completed (the other is still downloading); in
  the model of the program \<open>activeCount\<close> is then negative.
\<close>

theorem duplicate_terminal_counterexample:
  "completed (run (run (NewModel [''a'', ''b''] defaultConfig 2)
                      [Download_started 0, Download_started 1])
                 [Download_wait 0 [] False, Download_wait 0 [] False]) = 2 \<and>
   numCompleted (run (run (NewModel [''a'', ''b''] defaultConfig 2)
                      [Download_started 0, Download_started 1])
                 [Download_wait 0 [] False, Download_wait 0 [] False]) = 1 \<and>
   activeCount (run (run (NewModel [''a'', ''b''] defaultConfig 2)
                      [Download_started 0, Download_started 1])
                 [Download_wait 0 [] False, Download_wait 0 [] False]) < 0 \<and>
   completed (run (run (fst (startDownloads (NewModel [''a'', ''b''] defaultConfig 2)))
                      [Download_started 0, Download_started 1])
                 [Download_wait 0 [] False, Download_wait 0 [] False]) = 2 \<and>
   numCompleted (run (run (fst (startDownloads (NewModel [''a'', ''b''] defaultConfig 2)))
                      [Download_started 0, Download_started 1])
                 [Download_wait 0 [] False, Download_wait 0 [] False]) = 1"
proof -
  have s: "fst (startDownloads (NewModel [''a'', ''b''] defaultConfig 2)) =
     (NewModel [''a'', ''b''] defaultConfig 2)\<lparr>activeCount := 2\<rparr>"
    by (simp add: startDownloads_def NewModel_def upt_rec)
  have a: "run (run (NewModel [''a'', ''b''] defaultConfig 2)
                      [Download_started 0, Download_started 1])
                 [Download_wait 0 [] False, Download_wait 0 [] False] =
     \<lparr> items = [\<lparr> URL = ''a'', Title = [], Status = StatusCompleted, Progress = 100, Error = None \<rparr>,
                \<lparr> URL = ''b'', Title = [], Status = StatusDownloading, Progress = 0, Error = None \<rparr>],
       config = defaultConfig, parallel = 2, activeCount = -2, completed = 2, failed = 0,
       width = 80, quitting = False, doneFlag = True \<rparr>"
    by (simp add: run_defs upt_rec)
  have b: "run (run ((NewModel [''a'', ''b''] defaultConfig 2)\<lparr>activeCount := 2\<rparr>)
                      [Download_started 0, Download_started 1])
                 [Download_wait 0 [] False, Download_wait 0 [] False] =
     \<lparr> items = [\<lparr> URL = ''a'', Title = [], Status = StatusCompleted, Progress = 100, Error = None \<rparr>,
                \<lparr> URL = ''b'', Title = [], Status = StatusDownloading, Progress = 0, Error = None \<rparr>],
       config = defaultConfig, parallel = 2, activeCount = 0, completed = 2, failed = 0,
       width = 80, quitting = False, doneFlag = True \<rparr>"
    by (simp add: run_defs upt_rec)
  show ?thesis
    unfolding s a b by (simp add: numCompleted_def)
qed

text \<open>
  Claim C2, amended. The aggregator has no guard against a terminal event delivered
  twice: applying the same terminal event twice adds two to \<open>completed\<close> (for Completed)
  or to \<open>failed\<close> (for Failed), and \<open>activeCount\<close> is decremented at each application; it
  gets back one only when that application admits a pending item, so it ends between
  two less and the same, and two less when no other item is pending, below zero
  included.
\<close>

theorem duplicate_terminal_counts_twice:
  assumes "0 \<le> msgID msg" "msgID msg < int (length (items m))"
    and "msgStatus msg = StatusCompleted \<or> msgStatus msg = StatusFailed"
  shows "completed (run m [msg, msg]) =
           completed m + (if msgStatus msg = StatusCompleted then 2 else 0) \<and>
         failed (run m [msg, msg]) =
           failed m + (if msgStatus msg = StatusCompleted then 0 else 2) \<and>
         activeCount m - 2 \<le> activeCount (run m [msg, msg]) \<and>
         activeCount (run m [msg, msg]) \<le> activeCount m \<and>
         ((\<forall>j<length (items m). j \<noteq> nat (msgID msg) \<longrightarrow>
              Status (items m ! j) \<noteq> StatusPending) \<longrightarrow>
          activeCount (run m [msg, msg]) = activeCount m - 2)"
proof -
  let ?m1 = "fst (handleProgress m msg)"
  let ?m2 = "fst (handleProgress ?m1 msg)"
  let ?i = "nat (msgID msg)"
  have r1: "0 \<le> msgID msg" "msgID msg < int (length (items ?m1))"
    using assms by (simp_all add: handleProgress_same)
  have run2: "run m [msg, msg] = ?m2" by simp
  have c: "completed ?m2 = completed m + (if msgStatus msg = StatusCompleted then 2 else 0)"
    using assms by (simp add: handleProgress_counters(3) [OF r1 assms(3)] handleProgress_counters(3) [OF assms])
  have f: "failed ?m2 = failed m + (if msgStatus msg = StatusCompleted then 0 else 2)"
    using assms by (simp add: handleProgress_counters(4) [OF r1 assms(3)] handleProgress_counters(4) [OF assms])
  have a1: "activeCount ?m1 = activeCount m - 1 +
      int (length (snd (admitNext (counted m msg) [0..<length (items m)])))"
    using handleProgress_counters(1,2) [OF assms] by simp
  have a2: "activeCount ?m2 = activeCount ?m1 - 1 +
      int (length (snd (admitNext (counted ?m1 msg) [0..<length (items ?m1)])))"
    using handleProgress_counters(1,2) [OF r1 assms(3)] by simp
  have lo: "activeCount m - 2 \<le> activeCount ?m2"
    using a1 a2 by linarith
  have hi: "activeCount ?m2 \<le> activeCount m"
    using handleProgress_activeCount_le [of m msg] handleProgress_activeCount_le [of ?m1 msg]
    by linarith
  have np: "activeCount ?m2 = activeCount m - 2"
    if none: "\<forall>j<length (items m). j \<noteq> ?i \<longrightarrow> Status (items m ! j) \<noteq> StatusPending"
  proof -
    have i: "?i < length (items m)" using assms by simp
    have st: "Status (applyMsg it msg) = msgStatus msg" for it
      by (simp add: applyMsg_def Let_def)
    have its1: "items ?m1 = (items m)[?i := applyMsg (items m ! ?i) msg]"
      using assms(1,2) by (rule handleProgress_items)
    have n1: "\<forall>j\<in>set [0..<length (items m)]. Status (items (counted m msg) ! j) \<noteq> StatusPending"
      using none assms(3) i by (auto simp: counted_def nth_list_update st)
    have n2: "\<forall>j\<in>set [0..<length (items ?m1)]. Status (items (counted ?m1 msg) ! j) \<noteq> StatusPending"
      using none assms(3) i by (auto simp: counted_def its1 nth_list_update st)
    from a1 a2 admitNext_none [OF n1] admitNext_none [OF n2] show ?thesis by simp
  qed
  from c f lo hi np show ?thesis unfolding run2 by blast
qed

theorem duplicate_terminal_counts_twice_witness:
  "completed (run (fst (handleProgress (NewModel [''a''] defaultConfig 1) (Download_started 0)))
                 [Download_wait 0 [] False, Download_wait 0 [] False]) = 2 \<and>
   activeCount (run (fst (handleProgress (NewModel [''a''] defaultConfig 1) (Download_started 0)))
                 [Download_wait 0 [] False, Download_wait 0 [] False]) = -2"
proof -
  let ?m = "fst (handleProgress (NewModel [''a''] defaultConfig 1) (Download_started 0))"
  have m: "?m = \<lparr> items = [\<lparr> URL = ''a'', Title = [], Status = StatusDownloading, Progress = 0, Error = None \<rparr>],
       config = defaultConfig, parallel = 1, activeCount = 0, completed = 0, failed = 0,
       width = 80, quitting = False, doneFlag = False \<rparr>"
    by (simp add: run_defs)
  have h: "0 \<le> msgID (Download_wait 0 [] False)"
    "msgID (Download_wait 0 [] False) < int (length (items ?m))"
    "msgStatus (Download_wait 0 [] False) = StatusCompleted \<or>
     msgStatus (Download_wait 0 [] False) = StatusFailed"
    by (simp_all add: m) (simp_all add: Download_wait_def)
  have none: "\<forall>j<length (items ?m). j \<noteq> nat (msgID (Download_wait 0 [] False)) \<longrightarrow>
      Status (items ?m ! j) \<noteq> StatusPending"
    by (simp add: m)
  have st: "msgStatus (Download_wait 0 [] False) = StatusCompleted"
    by (simp add: Download_wait_def)
  have v: "completed ?m = 0" "activeCount ?m = 0" by (simp_all add: m)
  from duplicate_terminal_counts_twice [OF h] none st v show ?thesis
    by simp
qed

section \<open>The active count\<close>

text \<open>
  One item and limit 1. In the model of the program, after the Started event the item is
  downloading and \<open>activeCount\<close> is 0; in the copy that counted the launch,
  \<open>activeCount\<close> is 1 while the item is still pending. In neither is \<open>activeCount\<close> the
  number of items that are downloading or converting.
\<close>

theorem active_count_counterexample:
  "NewModel [''a''] defaultConfig 1 \<in> startStates [''a''] defaultConfig 1 \<and>
   activeCount (run (NewModel [''a''] defaultConfig 1) [Download_started 0]) = 0 \<and>
   numActive (run (NewModel [''a''] defaultConfig 1) [Download_started 0]) = 1 \<and>
   fst (startDownloads (NewModel [''a''] defaultConfig 1)) \<in> startStates [''a''] defaultConfig 1 \<and>
   activeCount (run (fst (startDownloads (NewModel [''a''] defaultConfig 1))) []) = 1 \<and>
   numActive (run (fst (startDownloads (NewModel [''a''] defaultConfig 1))) []) = 0"
proof -
  have s: "fst (startDownloads (NewModel [''a''] defaultConfig 1)) =
     (NewModel [''a''] defaultConfig 1)\<lparr>activeCount := 1\<rparr>"
    by (simp add: startDownloads_def NewModel_def upt_rec)
  have a: "run (NewModel [''a''] defaultConfig 1) [Download_started 0] =
     \<lparr> items = [\<lparr> URL = ''a'', Title = [], Status = StatusDownloading, Progress = 0, Error = None \<rparr>],
       config = defaultConfig, parallel = 1, activeCount = 0, completed = 0, failed = 0,
       width = 80, quitting = False, doneFlag = False \<rparr>"
    by (simp add: run_defs)
  have m: "NewModel [''a''] defaultConfig 1 \<in> startStates [''a''] defaultConfig 1"
    "fst (startDownloads (NewModel [''a''] defaultConfig 1)) \<in> startStates [''a''] defaultConfig 1"
    by (simp_all add: startStates_def)
  have b: "numActive (run (fst (startDownloads (NewModel [''a''] defaultConfig 1))) []) = 0"
    "activeCount (run (fst (startDownloads (NewModel [''a''] defaultConfig 1))) []) = 1"
    unfolding s by (simp_all add: numActive_def NewModel_def)
  have c: "numActive (run (NewModel [''a''] defaultConfig 1) [Download_started 0]) = 1"
    "activeCount (run (NewModel [''a''] defaultConfig 1) [Download_started 0]) = 0"
    unfolding a by (simp_all add: numActive_def)
  from m b c show ?thesis by (intro conjI)
qed

text \<open>
  Claim C3, amended. In every state reached from a start of the run with a limit
  \<open>p \<ge> 0\<close> by any sequence of events, \<open>activeCount\<close> is at most the limit, which the
  events never change. (It is not tied to the statuses in the table: those change when
  an event of the item is applied, \<open>activeCount\<close> at launches and terminal events.)
\<close>

theorem active_count_bounded:
  assumes "m0 \<in> startStates urls cfg p" "0 \<le> p"
  shows "activeCount (run m0 es) \<le> p \<and> parallel (run m0 es) = p"
proof -
  have "parallel m0 = p"
  proof -
    have "parallel (fst (startDownloads (NewModel urls cfg p))) = parallel (NewModel urls cfg p)"
      using startLoop_bound [of 0 "NewModel urls cfg p" "[0..<length (items (NewModel urls cfg p))]"]
        assms(2)
      by (simp add: startDownloads_def NewModel_def)
    with assms(1) show ?thesis by (auto simp: startStates_def NewModel_def)
  qed
  then have "parallel (run m0 es) = p" by (simp add: run_same)
  with reachable_bound [OF assms, of es] show ?thesis by simp
qed

theorem active_count_bounded_witness:
  "NewModel [''a'', ''b''] defaultConfig 1 \<in> startStates [''a'', ''b''] defaultConfig 1 \<and>
   (0::int) \<le> 1 \<and>
   activeCount (run (NewModel [''a'', ''b''] defaultConfig 1)
      [Download_started 0, Download_wait 0 [] False, Download_started 1]) \<le> 1"
proof -
  have m: "NewModel [''a'', ''b''] defaultConfig 1 \<in> startStates [''a'', ''b''] defaultConfig 1"
    by (simp add: startStates_def)
  have p: "(0::int) \<le> 1" by simp
  from active_count_bounded [OF m p,
      of "[Download_started 0, Download_wait 0 [] False, Download_started 1]"] m
  show ?thesis by simp
qed

section \<open>Admission\<close>

text \<open>
  The scan of the table. In a state reached from a start of the run (limit \<open>p \<ge> 0\<close>),
  when a terminal event of an item in range is applied while another item has status
  Pending in the table, exactly one worker is launched, for the smallest such index. The
  launch does not change the status: the item stays Pending in the table until its own
  Started event is applied.
\<close>

lemma admission_fifo:
  assumes start: "m0 \<in> startStates urls cfg p" "0 \<le> p"
    and m: "m = run m0 es"
    and r: "0 \<le> msgID msg" "msgID msg < int (length (items m))"
    and t: "msgStatus msg = StatusCompleted \<or> msgStatus msg = StatusFailed"
    and pend: "\<exists>j<length (items m). j \<noteq> nat (msgID msg) \<and> Status (items m ! j) = StatusPending"
  shows "\<exists>j<length (items m).
           j \<noteq> nat (msgID msg) \<and> Status (items m ! j) = StatusPending \<and>
           (\<forall>k<j. k \<noteq> nat (msgID msg) \<longrightarrow> Status (items m ! k) \<noteq> StatusPending) \<and>
           fst (snd (handleProgress m msg)) = [GoDownload (int j) (URL (items m ! j)) (config m)]"
proof -
  let ?i = "nat (msgID msg)"
  let ?c = "counted m msg"
  let ?P = "\<lambda>j. Status (items ?c ! j) = StatusPending"
  have i: "?i < length (items m)" using r by simp
  have st: "Status (applyMsg it msg) = msgStatus msg" for it
    by (simp add: applyMsg_def Let_def)
  have url: "URL (applyMsg it msg) = URL it" for it
    by (simp add: applyMsg_def Let_def)
  have P_iff: "?P j \<longleftrightarrow> j \<noteq> ?i \<and> Status (items m ! j) = StatusPending"
    if "j < length (items m)" for j
    using that t i by (auto simp: counted_def nth_list_update st)
  have URL_c: "URL (items ?c ! j) = URL (items m ! j)" if "j < length (items m)" for j
    using that i by (cases "j = ?i") (simp_all add: counted_def url)
  have cfg: "config ?c = config m" by (simp add: counted_def)
  have "activeCount m \<le> parallel m"
    unfolding m using start by (rule reachable_bound)
  then have lt: "activeCount ?c < parallel ?c" by (simp add: counted_def)
  from pend obtain j where j: "j < length (items m)" "?P j"
    using P_iff by blast
  from find_upt_least [of j "length (items m)" ?P, OF j]
  obtain j0 where j0: "find ?P [0..<length (items m)] = Some j0" "j0 < length (items m)"
    "?P j0" "\<forall>k<j0. \<not> ?P k"
    by blast
  have sp: "fst (snd (handleProgress m msg)) =
      [GoDownload (int j0) (URL (items m ! j0)) (config m)]"
    using handleProgress_counters(2) [OF r t] admitNext_find [OF lt, of "[0..<length (items m)]"]
    by (simp add: j0(1) URL_c [OF j0(2)] cfg)
  have least: "\<forall>k<j0. k \<noteq> ?i \<longrightarrow> Status (items m ! k) \<noteq> StatusPending"
  proof (intro allI impI)
    fix k assume k: "k < j0" "k \<noteq> ?i"
    then have "k < length (items m)" using j0(2) by simp
    from P_iff [OF this] j0(4) k show "Status (items m ! k) \<noteq> StatusPending" by blast
  qed
  from j0(2,3) P_iff [OF j0(2)] least sp show ?thesis by blast
qed

lemma admission_fifo_example:
  "NewModel [''A'', ''B''] defaultConfig 1 \<in> startStates [''A'', ''B''] defaultConfig 1 \<and>
   Status (items (run (NewModel [''A'', ''B''] defaultConfig 1) [Download_started 0]) ! 0)
     = StatusDownloading \<and>
   Status (items (run (NewModel [''A'', ''B''] defaultConfig 1) [Download_started 0]) ! 1)
     = StatusPending \<and>
   fst (snd (handleProgress (run (NewModel [''A'', ''B''] defaultConfig 1) [Download_started 0])
                            (Download_wait 0 [] False)))
     = [GoDownload 1 ''B'' defaultConfig]"
proof -
  let ?m = "run (NewModel [''A'', ''B''] defaultConfig 1) [Download_started 0]"
  let ?msg = "Download_wait 0 [] False"
  have m: "?m =
     \<lparr> items = [\<lparr> URL = ''A'', Title = [], Status = StatusDownloading, Progress = 0, Error = None \<rparr>,
                \<lparr> URL = ''B'', Title = [], Status = StatusPending, Progress = 0, Error = None \<rparr>],
       config = defaultConfig, parallel = 1, activeCount = 0, completed = 0, failed = 0,
       width = 80, quitting = False, doneFlag = False \<rparr>"
    by (simp add: run_defs)
  have s: "NewModel [''A'', ''B''] defaultConfig 1 \<in> startStates [''A'', ''B''] defaultConfig 1"
    by (simp add: startStates_def)
  have p: "(0::int) \<le> 1" by simp
  have r: "0 \<le> msgID ?msg" "msgID ?msg < int (length (items ?m))"
    by (simp_all only: m) (simp_all add: Download_wait_def)
  have t: "msgStatus ?msg = StatusCompleted \<or> msgStatus ?msg = StatusFailed"
    by (simp add: Download_wait_def)
  have id: "nat (msgID ?msg) = 0" by (simp add: Download_wait_def)
  have pend: "\<exists>j<length (items ?m). j \<noteq> nat (msgID ?msg) \<and> Status (items ?m ! j) = StatusPending"
    unfolding id by (simp only: m) (simp add: exI [of _ 1])
  from admission_fifo [OF s p refl r t pend]
  obtain j where j: "j < length (items ?m)" "j \<noteq> nat (msgID ?msg)"
    "fst (snd (handleProgress ?m ?msg)) = [GoDownload (int j) (URL (items ?m ! j)) (config ?m)]"
    by blast
  have "length (items ?m) = 2" by (simp only: m) simp
  with j(1,2) id have "j = 1" by simp
  with j(3) have "fst (snd (handleProgress ?m ?msg)) = [GoDownload 1 ''B'' defaultConfig]"
    by (simp only: m) simp
  moreover have "Status (items ?m ! 0) = StatusDownloading" "Status (items ?m ! 1) = StatusPending"
    by (simp_all only: m) simp_all
  ultimately show ?thesis using s by simp
qed

text \<open>
  Claim C6. The replacement admitted on a terminal event should be the first item not
  yet admitted. Four items, limit 2: items 0 and 1 are launched at the start. The
  terminal event of item 0 launches item 2; the terminal event of item 1, applied before
  the Started event of item 2, finds item 2 still Pending in the table and launches it a
  second time, passing over item 3. Later the two terminal events of item 2 bring the
  count to four: the run quits while item 3 is Pending in the table.
\<close>

theorem relaunch_of_admitted_item:
  "Init (NewModel [''a'', ''b'', ''c'', ''d''] defaultConfig 2)
     = [GoDownload 0 ''a'' defaultConfig, GoDownload 1 ''b'' defaultConfig] \<and>
   fst (snd (handleProgress
      (run (NewModel [''a'', ''b'', ''c'', ''d''] defaultConfig 2)
           [Download_started 0, Download_started 1])
      (Download_wait 0 [] False))) = [GoDownload 2 ''c'' defaultConfig] \<and>
   fst (snd (handleProgress
      (run (NewModel [''a'', ''b'', ''c'', ''d''] defaultConfig 2)
           [Download_started 0, Download_started 1, Download_wait 0 [] False])
      (Download_wait 1 [] False))) = [GoDownload 2 ''c'' defaultConfig] \<and>
   map Status (items (run (NewModel [''a'', ''b'', ''c'', ''d''] defaultConfig 2)
           [Download_started 0, Download_started 1, Download_wait 0 [] False,
            Download_wait 1 [] False]))
     = [StatusCompleted, StatusCompleted, StatusPending, StatusPending] \<and>
   snd (snd (handleProgress
      (run (NewModel [''a'', ''b'', ''c'', ''d''] defaultConfig 2)
           [Download_started 0, Download_started 1, Download_wait 0 [] False,
            Download_wait 1 [] False, Download_started 2, Download_started 2,
            Download_wait 2 [] False])
      (Download_wait 2 [] False))) = Quit \<and>
   map Status (items (run (NewModel [''a'', ''b'', ''c'', ''d''] defaultConfig 2)
           [Download_started 0, Download_started 1, Download_wait 0 [] False,
            Download_wait 1 [] False, Download_started 2, Download_started 2,
            Download_wait 2 [] False, Download_wait 2 [] False]))
     = [StatusCompleted, StatusCompleted, StatusCompleted, StatusPending]"
proof -
  let ?m0 = "NewModel [''a'', ''b'', ''c'', ''d''] defaultConfig 2"
  have i: "Init ?m0 = [GoDownload 0 ''a'' defaultConfig, GoDownload 1 ''b'' defaultConfig]"
    by (simp add: Init_def startDownloads_def NewModel_def upt_rec)
  have a: "fst (snd (handleProgress (run ?m0 [Download_started 0, Download_started 1])
      (Download_wait 0 [] False))) = [GoDownload 2 ''c'' defaultConfig]"
    by (simp add: run_defs upt_rec)
  have b: "fst (snd (handleProgress
      (run ?m0 [Download_started 0, Download_started 1, Download_wait 0 [] False])
      (Download_wait 1 [] False))) = [GoDownload 2 ''c'' defaultConfig]"
    by (simp add: run_defs upt_rec)
  have c: "map Status (items (run ?m0
           [Download_started 0, Download_started 1, Download_wait 0 [] False,
            Download_wait 1 [] False]))
     = [StatusCompleted, StatusCompleted, StatusPending, StatusPending]"
    by (simp add: run_defs upt_rec)
  have d: "snd (snd (handleProgress
      (run ?m0 [Download_started 0, Download_started 1, Download_wait 0 [] False,
            Download_wait 1 [] False, Download_started 2, Download_started 2,
            Download_wait 2 [] False])
      (Download_wait 2 [] False))) = Quit"
    by (simp add: run_defs upt_rec)
  have e: "map Status (items (run ?m0
           [Download_started 0, Download_started 1, Download_wait 0 [] False,
            Download_wait 1 [] False, Download_started 2, Download_started 2,
            Download_wait 2 [] False, Download_wait 2 [] False]))
     = [StatusCompleted, StatusCompleted, StatusCompleted, StatusPending]"
    by (simp add: run_defs upt_rec)
  from i a b c d e show ?thesis by (intro conjI)
qed

section \<open>The statuses of an item\<close>

lemma statusPath_events:
  "i < length (items m) \<Longrightarrow> \<forall>e\<in>set es. msgID e = int i \<Longrightarrow>
   statusPath m i es = Status (items m ! i) # map msgStatus es"
proof (induction es arbitrary: m)
  case Nil
  show ?case by (simp add: statusPath_def)
next
  case (Cons e es)
  let ?m' = "fst (handleProgress m e)"
  have r: "0 \<le> msgID e" "msgID e < int (length (items m))"
    using Cons.prems by simp_all
  have id: "nat (msgID e) = i" using Cons.prems by simp
  have len: "i < length (items ?m')"
    using Cons.prems(1) by (simp add: handleProgress_same)
  have st: "Status (items ?m' ! i) = msgStatus e"
    using Cons.prems(1) by (simp add: handleProgress_items [OF r] id applyMsg_def Let_def)
  have "statusPath ?m' i es = Status (items ?m' ! i) # map msgStatus es"
    using len Cons.prems(2) by (intro Cons.IH) simp_all
  then show ?case by (simp add: statusPath_def st)
qed

lemma stdout_line_statuses:
  "\<forall>e\<in>set (snd (stdout_line wid title line)).
     msgID e = wid \<and> (msgStatus e = StatusDownloading \<or> msgStatus e = StatusConverting)"
  by (auto simp: stdout_line_def Let_def)

lemma stderr_line_statuses:
  "\<forall>e\<in>set (snd (stderr_line wid title line)).
     msgID e = wid \<and> msgStatus e = StatusDownloading"
  by (auto simp: stderr_line_def Let_def)

lemma stdout_loop_statuses:
  "\<forall>e\<in>set (snd (stdout_loop wid title lines)).
     msgID e = wid \<and> (msgStatus e = StatusDownloading \<or> msgStatus e = StatusConverting)"
proof (induction lines arbitrary: title)
  case Nil
  show ?case by simp
next
  case (Cons line lines)
  obtain t1 e1 where a: "stdout_line wid title line = (t1, e1)"
    by (cases "stdout_line wid title line")
  obtain t2 e2 where b: "stdout_loop wid t1 lines = (t2, e2)"
    by (cases "stdout_loop wid t1 lines")
  from stdout_line_statuses [of wid title line] a Cons.IH [of t1] b
  show ?case by auto
qed

lemma stderr_loop_statuses:
  "\<forall>e\<in>set (snd (stderr_loop wid title lines)).
     msgID e = wid \<and> msgStatus e = StatusDownloading"
proof (induction lines arbitrary: title)
  case Nil
  show ?case by simp
next
  case (Cons line lines)
  obtain t1 e1 where a: "stderr_line wid title line = (t1, e1)"
    by (cases "stderr_line wid title line")
  obtain t2 e2 where b: "stderr_loop wid t1 lines = (t2, e2)"
    by (cases "stderr_loop wid t1 lines")
  from stderr_line_statuses [of wid title line] a Cons.IH [of t1] b
  show ?case by auto
qed

text \<open>
  A task that downloads and converts two files in a row: the progress line of the second
  file comes after the extraction line of the first, and the item goes from Converting
  back to Downloading. The path of its statuses is not one of the state machine.
\<close>

theorem status_path_counterexample:
  "statusPath (NewModel [''u''] defaultConfig 1) 0
     (Download_drained 0
        (stdoutTask [''[download] 100% of 3.00MiB'',
                     ''[ExtractAudio] Destination: /out/a.mp3'',
                     ''[download] 100% of 4.00MiB''] False))
   = [StatusPending, StatusDownloading, StatusDownloading, StatusDownloading,
      StatusConverting, StatusDownloading, StatusCompleted] \<and>
   \<not> validPath (statusPath (NewModel [''u''] defaultConfig 1) 0
     (Download_drained 0
        (stdoutTask [''[download] 100% of 3.00MiB'',
                     ''[ExtractAudio] Destination: /out/a.mp3'',
                     ''[download] 100% of 4.00MiB''] False)))"
proof -
  have l1: "stdout_line 0 [] ''[download] 100% of 3.00MiB'' =
      ([], [\<lparr> msgID = 0, msgStatus = StatusDownloading, msgProgress = 100, msgTitle = [],
               msgError = None \<rparr>])"
    by (simp add: stdout_line_def re_defs)
  have l2: "stdout_line 0 [] ''[ExtractAudio] Destination: /out/a.mp3'' =
      (''a'', [\<lparr> msgID = 0, msgStatus = StatusDownloading, msgProgress = 0, msgTitle = ''a'',
                  msgError = None \<rparr>,
               \<lparr> msgID = 0, msgStatus = StatusConverting, msgProgress = 100, msgTitle = ''a'',
                  msgError = None \<rparr>])"
    by (simp add: stdout_line_def re_defs)
  have l3: "stdout_line 0 ''a'' ''[download] 100% of 4.00MiB'' =
      (''a'', [\<lparr> msgID = 0, msgStatus = StatusDownloading, msgProgress = 100, msgTitle = ''a'',
                  msgError = None \<rparr>])"
    by (simp add: stdout_line_def re_defs)
  have ev: "Download_drained 0
        (stdoutTask [''[download] 100% of 3.00MiB'',
                     ''[ExtractAudio] Destination: /out/a.mp3'',
                     ''[download] 100% of 4.00MiB''] False) =
     [Download_started 0,
      \<lparr> msgID = 0, msgStatus = StatusDownloading, msgProgress = 100, msgTitle = [],
        msgError = None \<rparr>,
      \<lparr> msgID = 0, msgStatus = StatusDownloading, msgProgress = 0, msgTitle = ''a'',
        msgError = None \<rparr>,
      \<lparr> msgID = 0, msgStatus = StatusConverting, msgProgress = 100, msgTitle = ''a'',
        msgError = None \<rparr>,
      \<lparr> msgID = 0, msgStatus = StatusDownloading, msgProgress = 100, msgTitle = ''a'',
        msgError = None \<rparr>,
      Download_wait 0 ''a'' False]"
    by (simp add: Download_drained_def stdoutTask_def l1 l2 l3)
  have path: "statusPath (NewModel [''u''] defaultConfig 1) 0
     (Download_drained 0
        (stdoutTask [''[download] 100% of 3.00MiB'',
                     ''[ExtractAudio] Destination: /out/a.mp3'',
                     ''[download] 100% of 4.00MiB''] False))
   = [StatusPending, StatusDownloading, StatusDownloading, StatusDownloading,
      StatusConverting, StatusDownloading, StatusCompleted]"
    unfolding ev by (simp add: statusPath_def run_defs)
  show ?thesis
    unfolding path by (simp add: validPath_def smStep_def)
qed

text \<open>
  Claim C4, amended. As the aggregator applies the events of an item's worker, the
  statuses of the item are Pending, then Running (the first event of the worker is
  Started), then the status each later event carries, in the order applied: no Completed
  or Failed occurs before Running, and nothing checks a transition. The loops that read
  the streams send only Running and Converting (stderr only Running), always with the
  worker's index; the message sent after the wait is the terminal one.
\<close>

theorem status_path_follows_events:
  assumes "i < length (items m)" "Status (items m ! i) = StatusPending"
    and "\<forall>e\<in>set es. msgID e = int i"
  shows "statusPath m i (Download_started (int i) # es) =
           StatusPending # StatusDownloading # map msgStatus es \<and>
         (\<forall>e\<in>set (snd (stdout_loop (int i) title lines)).
            msgID e = int i \<and>
            (msgStatus e = StatusDownloading \<or> msgStatus e = StatusConverting)) \<and>
         (\<forall>e\<in>set (snd (stderr_loop (int i) title lines)).
            msgID e = int i \<and> msgStatus e = StatusDownloading) \<and>
         msgID (Download_wait (int i) title werr) = int i \<and>
         msgStatus (Download_wait (int i) title werr) =
           (if werr then StatusFailed else StatusCompleted)"
proof -
  have "\<forall>e\<in>set (Download_started (int i) # es). msgID e = int i"
    using assms(3) by (simp add: Download_started_def)
  from statusPath_events [OF assms(1) this] assms(2)
  have path: "statusPath m i (Download_started (int i) # es) =
      StatusPending # StatusDownloading # map msgStatus es"
    by (simp add: Download_started_def)
  have wait: "msgID (Download_wait (int i) title werr) = int i"
    "msgStatus (Download_wait (int i) title werr) =
       (if werr then StatusFailed else StatusCompleted)"
    by (simp_all add: Download_wait_def)
  from path stdout_loop_statuses [of "int i" title lines]
    stderr_loop_statuses [of "int i" title lines] wait
  show ?thesis by (intro conjI)
qed

theorem status_path_follows_events_witness:
  "(0::nat) < length (items (NewModel [''u''] defaultConfig 1)) \<and>
   Status (items (NewModel [''u''] defaultConfig 1) ! 0) = StatusPending \<and>
   statusPath (NewModel [''u''] defaultConfig 1) 0
     [Download_started 0, Download_wait 0 [] False]
   = [StatusPending, StatusDownloading, StatusCompleted]"
proof -
  have a: "(0::nat) < length (items (NewModel [''u''] defaultConfig 1))"
    "Status (items (NewModel [''u''] defaultConfig 1) ! 0) = StatusPending"
    by (simp_all add: NewModel_def)
  have b: "\<forall>e\<in>set [Download_wait 0 [] False]. msgID e = int 0"
    by (simp add: Download_wait_def)
  from status_path_follows_events [OF a b] a show ?thesis
    by (simp add: Download_wait_def)
qed

section \<open>The order of a worker's messages\<close>

text \<open>
  Claim C5. The terminal message should never reach the channel before a message of a
  loop. A task that prints one destination line and exits with status 0: the order
  Started, Completed, title message is one of the orders of the call, the wait having
  returned before the loop on stdout handled the line. Applied in that order, the
  messages leave the item Downloading after its Completed event.
\<close>

theorem terminal_before_progress:
  "[Download_started 0,
    Download_wait 0 [] False,
    \<lparr> msgID = 0, msgStatus = StatusDownloading, msgProgress = 0, msgTitle = ''a'',
      msgError = None \<rparr>]
     \<in> Download_orders 0 (stdoutTask [''[download] Destination: /out/a.webm''] False) \<and>
   msgStatus (Download_wait 0 [] False) = StatusCompleted \<and>
   Status (items (run (NewModel [''u''] defaultConfig 1)
      [Download_started 0,
       Download_wait 0 [] False,
       \<lparr> msgID = 0, msgStatus = StatusDownloading, msgProgress = 0, msgTitle = ''a'',
         msgError = None \<rparr>]) ! 0) = StatusDownloading"
proof -
  let ?e = "\<lparr> msgID = 0, msgStatus = StatusDownloading, msgProgress = 0, msgTitle = ''a'',
      msgError = None \<rparr>"
  have l: "stdout_line 0 [] ''[download] Destination: /out/a.webm'' = (''a'', [?e])"
    by (simp add: stdout_line_def re_defs)
  have ys: "[?e] \<in> shuffles (snd (stdout_loop 0 [] [''[download] Destination: /out/a.webm'']))
                             (snd (stderr_loop 0 [] []))"
    by (simp add: l)
  have t: "[] \<in> {fst (stdout_loop 0 [] (take k [''[download] Destination: /out/a.webm''])) | k. True} \<union>
                 {fst (stderr_loop 0 [] (take k [])) | k. True}"
    by simp
  have zs: "[Download_wait 0 [] False, ?e] \<in> shuffles [?e] [Download_wait 0 [] False]"
    by simp
  have mem: "[Download_started 0, Download_wait 0 [] False, ?e]
     \<in> Download_orders 0 (stdoutTask [''[download] Destination: /out/a.webm''] False)"
    unfolding Download_orders_def stdoutTask_def
    using ys t zs by (simp only: Task.simps option.case) blast
  have st: "msgStatus (Download_wait 0 [] False) = StatusCompleted"
    by (simp add: Download_wait_def)
  have fin: "Status (items (run (NewModel [''u''] defaultConfig 1)
      [Download_started 0, Download_wait 0 [] False, ?e]) ! 0) = StatusDownloading"
    by (simp add: run_defs)
  from mem st fin show ?thesis by (intro conjI)
qed

section \<open>Out-of-range events\<close>

text \<open>
  Claim C9. An event whose index is negative or at least the number of items is dropped:
  the model comes back as it was (no item, no counter and no completion flag changes), no
  worker is launched, and the only command returned is the wait for the next event.
\<close>

theorem handleProgress_out_of_range:
  "msgID msg < 0 \<or> msgID msg \<ge> int (length (items m)) \<Longrightarrow>
     handleProgress m msg = (m, [], WaitForProgress)"
  by (simp add: handleProgress_def)

theorem handleProgress_out_of_range_witness:
  "((-1::int) < 0 \<or> (-1::int) \<ge> int (length (items (NewModel [''u''] defaultConfig 1)))) \<and>
   handleProgress (NewModel [''u''] defaultConfig 1)
     \<lparr> msgID = -1, msgStatus = StatusCompleted, msgProgress = 100, msgTitle = [],
       msgError = None \<rparr>
   = (NewModel [''u''] defaultConfig 1, [], WaitForProgress)"
  using handleProgress_out_of_range
    [of "\<lparr> msgID = -1, msgStatus = StatusCompleted, msgProgress = 100, msgTitle = [],
           msgError = None \<rparr>" "NewModel [''u''] defaultConfig 1"]
  by simp

end
